theory Spec2Isabelle
  imports Main "HOL-Library.Word"
begin

unbundle bit_operations_syntax

section \<open>Common types\<close>

type_synonym uint32 = "32 word"
type_synonym uint64 = "64 word"

text \<open>Run-time panics of the Go code, as values.\<close>

datatype panic = IndexOutOfRange | DivideByZero | NilDereference

section \<open>Ticket lock (package ticket, ticket/ticket.go)\<close>

text \<open>
  \<^verbatim>\<open>type Lock struct { head uint32; tail uint32 }\<close>: two 32-bit counters, \<open>head\<close> at
  offset 0 and \<open>tail\<close> at offset 4 of the struct.
\<close>

record TicketLock =
  head :: uint32
  tail :: uint32

text \<open>\<^verbatim>\<open>func NewLock() *Lock { return &Lock{head: 1, tail: 0} }\<close>\<close>

definition ticket_NewLock :: "TicketLock" where
  "ticket_NewLock = \<lparr>head = 1, tail = 0\<rparr>"

text \<open>
  \<open>TryLock\<close> reinterprets the address of the struct as a \<^verbatim>\<open>*uint64\<close>
  (\<^verbatim>\<open>(*uint64)(unsafe.Pointer(t))\<close>). Which of the two fields lands in the high half of
  that word is decided by the byte order of the target, so the byte order is a parameter
  of the model. On a little-endian target (amd64, arm64, ...) the field at offset 0,
  \<open>head\<close>, is the low half; on a big-endian target it is the high half.
\<close>

datatype byte_order = LittleEndian | BigEndian

text \<open>The Go expression \<^verbatim>\<open>uint64(hi)<<32 | uint64(lo)\<close>.\<close>

definition pack64 :: "uint32 \<Rightarrow> uint32 \<Rightarrow> uint64" where
  "pack64 hi lo = push_bit 32 (ucast hi) OR ucast lo"

definition load_uint64 :: "byte_order \<Rightarrow> TicketLock \<Rightarrow> uint64" where
  "load_uint64 bo t =
     (case bo of
        BigEndian \<Rightarrow> pack64 (head t) (tail t)
      | LittleEndian \<Rightarrow> pack64 (tail t) (head t))"

definition store_uint64 :: "byte_order \<Rightarrow> uint64 \<Rightarrow> TicketLock" where
  "store_uint64 bo w =
     (case bo of
        BigEndian \<Rightarrow> \<lparr>head = ucast (drop_bit 32 w), tail = ucast w\<rparr>
      | LittleEndian \<Rightarrow> \<lparr>head = ucast w, tail = ucast (drop_bit 32 w)\<rparr>)"

text \<open>
  The compare-and-swap of \<open>TryLock\<close>, on the lock as it is at the moment of the CAS.
  \<open>me\<close> is the value that the plain read \<^verbatim>\<open>me := t.tail\<close> returned before; other
  goroutines may have run in between, so \<open>me\<close> need not be the current \<open>tail\<close>.
  The result is the returned boolean and the lock after the call.
\<close>

definition TryLock_cas :: "byte_order \<Rightarrow> uint32 \<Rightarrow> TicketLock \<Rightarrow> bool \<times> TicketLock" where
  "TryLock_cas bo me t =
     (let meNew = me + 1 in
      if load_uint64 bo t = pack64 (me + 1) me
      then (True, store_uint64 bo (pack64 (me + 1) meNew))
      else (False, t))"

text \<open>\<open>TryLock\<close> with no other goroutine running between the read and the CAS.\<close>

definition ticket_TryLock :: "byte_order \<Rightarrow> TicketLock \<Rightarrow> bool \<times> TicketLock" where
  "ticket_TryLock bo t = TryLock_cas bo (tail t) t"

definition ticketBaseWait :: uint32 where
  "ticketBaseWait = 10"

definition ticketWaitNext :: nat where
  "ticketWaitNext = 5"

definition subAbs :: "uint32 \<Rightarrow> uint32 \<Rightarrow> uint32" where
  "subAbs a b = (if a > b then a - b else b - a)"

text \<open>
  What a waiting \<open>Lock\<close> call does besides reading \<open>head\<close>: an empty loop of a given
  number of iterations, or \<^verbatim>\<open>time.Sleep(time.Millisecond)\<close>.
\<close>

datatype effect = BusySpin nat | SleepMillisecond

text \<open>
  The wait loop of \<open>Lock\<close>. \<open>head\<close> is written by other goroutines only (by their
  \<open>Unlock\<close>), so the values that the successive \<^verbatim>\<open>atomic.LoadUint32(&t.head)\<close> return
  are an input: the list \<open>loads\<close>, one element for each probe. The result is the list of
  effects up to the probe that sees the caller's ticket; \<open>None\<close> when the observed values
  end before the ticket is seen (the call is still spinning).
\<close>

fun Lock_wait :: "uint32 \<Rightarrow> uint32 \<Rightarrow> uint32 \<Rightarrow> uint32 list \<Rightarrow> effect list option" where
  "Lock_wait myTicket wait distancePrev [] = None"
| "Lock_wait myTicket wait distancePrev (cur # loads) =
     (if cur = myTicket then Some []
      else
        let distance = subAbs cur myTicket;
            reset = (distance > 1 \<and> distance \<noteq> distancePrev);
            distancePrev' = (if reset then distance else distancePrev);
            wait' = (if reset then ticketBaseWait else wait);
            spin = (if distance > 1 then BusySpin (unat (distance * wait'))
                    else BusySpin ticketWaitNext);
            sleep = (if distance > 20 then [SleepMillisecond] else [])
        in map_option (\<lambda>tr. spin # sleep @ tr)
             (Lock_wait myTicket wait' distancePrev' loads))"

text \<open>
  \<open>Lock\<close>: \<^verbatim>\<open>atomic.AddUint32(&t.tail, 1)\<close> returns the new value of \<open>tail\<close>, which is
  the ticket; the first load of \<open>head\<close> is the fast path, the following ones belong to the
  wait loop. The lock returned has \<open>tail\<close> incremented; \<open>Lock\<close> writes nothing else.
\<close>

definition ticket_Lock :: "TicketLock \<Rightarrow> uint32 list \<Rightarrow> (effect list \<times> TicketLock) option" where
  "ticket_Lock t loads =
     (let myTicket = tail t + 1;
          t' = t\<lparr>tail := myTicket\<rparr>
      in case loads of
           [] \<Rightarrow> None
         | cur # rest \<Rightarrow>
             if cur = myTicket then Some ([], t')
             else map_option (\<lambda>tr. (tr, t')) (Lock_wait myTicket ticketBaseWait 1 rest))"

text \<open>
  What the specification says one probe of the wait loop costs, as a function of the
  caller's ticket and of the value of \<open>head\<close> that the probe reads, following its words:
  with \<open>distance = |head - ticket|\<close>, a busy-spin of \<open>distance * wait\<close> iterations with
  \<open>wait\<close> at the base constant 10 when \<open>distance > 1\<close>, a busy-spin of 5 iterations when
  \<open>distance\<close> is 1, and a sleep of a millisecond besides when \<open>distance > 20\<close>. The
  product is the one of the code, in \<open>uint32\<close>.
\<close>

definition claimed_probe :: "uint32 \<Rightarrow> uint32 \<Rightarrow> effect list" where
  "claimed_probe myTicket cur =
     (let distance = subAbs cur myTicket in
        (if distance > 1 then [BusySpin (unat (distance * 10))]
         else if distance = 1 then [BusySpin 5]
         else [])
        @ (if distance > 20 then [SleepMillisecond] else []))"

definition ticket_Unlock :: "TicketLock \<Rightarrow> TicketLock" where
  "ticket_Unlock t = t\<lparr>head := head t + 1\<rparr>"

definition isFree :: "TicketLock \<Rightarrow> bool" where
  "isFree t = (head t - tail t = 1)"

section \<open>Array lock (package alock)\<close>

text \<open>
  \<^verbatim>\<open>type Share struct { flags []uint32; tail uint32; size uint32 }\<close> and
  \<^verbatim>\<open>type ArrayLock struct { share *Share; myIndex uint32 }\<close>. The fields \<open>tail\<close> and
  \<open>size\<close> carry the prefix \<open>share_\<close> here. \<open>NewArrayLock\<close> is the only place that
  makes a \<open>Share\<close>, one for each \<open>ArrayLock\<close>, so the pointer is modelled by value.
  The \<open>ArrayLock\<close> that the constructor returns is the one handle that every goroutine
  calls, so \<open>myIndex\<close> is shared as well: each operation takes the handle as the
  callers left it and returns it updated.
\<close>

record Share =
  share_flags :: "uint32 list"
  share_tail :: uint32
  share_size :: uint32

record ArrayLock =
  share :: Share
  myIndex :: uint32

text \<open>\<^verbatim>\<open>share.flags[0] = 1\<close> panics on the empty slice that capacity 0 gives.\<close>

definition NewArrayLock :: "uint32 \<Rightarrow> panic + ArrayLock" where
  "NewArrayLock numGoroutines =
     (let fl = replicate (unat numGoroutines) (0 :: uint32) in
      if 0 < length fl
      then Inr \<lparr>share = \<lparr>share_flags = fl[0 := 1], share_tail = 0,
                           share_size = numGoroutines\<rparr>,
                 myIndex = 0\<rparr>
      else Inl IndexOutOfRange)"

text \<open>
  The first two statements of \<open>Lock\<close>:
  \<^verbatim>\<open>slot := atomic.AddUint32(&lock.tail, 1) % lock.size; al.myIndex = slot\<close>.
  \<open>AddUint32\<close> returns the new value of \<open>tail\<close>.
\<close>

definition alock_Lock_enter :: "ArrayLock \<Rightarrow> panic + (uint32 \<times> ArrayLock)" where
  "alock_Lock_enter al =
     (let lock = share al;
          newTail = share_tail lock + 1
      in if share_size lock = 0 then Inl DivideByZero
         else
           let slot = newTail mod share_size lock
           in Inr (slot, al\<lparr>share := lock\<lparr>share_tail := newTail\<rparr>, myIndex := slot\<rparr>))"

text \<open>
  The spin loop of \<open>Lock\<close>. \<open>gosched\<close> is what the other goroutines do to the lock
  during one \<^verbatim>\<open>runtime.Gosched()\<close>; the identity when there is no other goroutine.
  A loop that never ends has the value \<open>None\<close>.
\<close>

partial_function (option) alock_spin ::
  "(ArrayLock \<Rightarrow> ArrayLock) \<Rightarrow> uint32 \<Rightarrow> ArrayLock \<Rightarrow> (panic + ArrayLock) option" where
  "alock_spin gosched slot al =
     (if unat slot < length (share_flags (share al))
      then (if share_flags (share al) ! unat slot = 0
            then alock_spin gosched slot (gosched al)
            else Some (Inr al))
      else Some (Inl IndexOutOfRange))"

definition alock_Lock :: "(ArrayLock \<Rightarrow> ArrayLock) \<Rightarrow> ArrayLock \<Rightarrow> (panic + ArrayLock) option" where
  "alock_Lock gosched al =
     (case alock_Lock_enter al of
        Inl e \<Rightarrow> Some (Inl e)
      | Inr (slot, al') \<Rightarrow> alock_spin gosched slot al')"

definition alock_Unlock :: "ArrayLock \<Rightarrow> panic + ArrayLock" where
  "alock_Unlock al =
     (let lock = share al;
          slot = myIndex al
      in if \<not> unat slot < length (share_flags lock) then Inl IndexOutOfRange
         else
           let fl = (share_flags lock)[unat slot := 0]
           in if share_size lock = 0 then Inl DivideByZero
              else
                let nextSlot = (slot + 1) mod share_size lock
                in if \<not> unat nextSlot < length fl then Inl IndexOutOfRange
                   else Inr (al\<lparr>share := lock\<lparr>share_flags := fl[unat nextSlot := 1]\<rparr>\<rparr>))"

text \<open>
  \<open>TryLock\<close> after its first statement: \<open>tail0\<close> is the value that
  \<^verbatim>\<open>atomic.LoadUint32(&lock.tail)\<close> returned; the compare-and-swap fails when \<open>tail\<close>
  has changed since.
\<close>

definition alock_TryLock_from :: "uint32 \<Rightarrow> ArrayLock \<Rightarrow> panic + (bool \<times> ArrayLock)" where
  "alock_TryLock_from tail0 al =
     (let lock = share al
      in if share_size lock = 0 then Inl DivideByZero
         else if \<not> unat (tail0 mod share_size lock) < length (share_flags lock)
         then Inl IndexOutOfRange
         else if share_flags lock ! unat (tail0 mod share_size lock) = 1
         then (if share_tail lock = tail0
               then Inr (True, al\<lparr>share := lock\<lparr>share_tail := tail0 + 1\<rparr>,
                                 myIndex := tail0 mod share_size lock\<rparr>)
               else Inr (False, al))
         else Inr (False, al))"

definition alock_TryLock :: "ArrayLock \<Rightarrow> panic + (bool \<times> ArrayLock)" where
  "alock_TryLock al = alock_TryLock_from (share_tail (share al)) al"

text \<open>The indices of the flags that let a waiting \<open>Lock\<close> through (flag not 0).\<close>

definition open_slots :: "uint32 list \<Rightarrow> nat list" where
  "open_slots fl = filter (\<lambda>j. fl ! j \<noteq> 0) [0 ..< length fl]"

section \<open>MCS lock (package mcs)\<close>

text \<open>
  \<^verbatim>\<open>type QNode struct { next atomic.Pointer[QNode]; waiting uint32 }\<close> and
  \<^verbatim>\<open>type Lock struct { tail atomic.Pointer[QNode] }\<close>. A \<^verbatim>\<open>*QNode\<close> is an address or
  \<open>nil\<close> (\<open>None\<close>); the queue nodes live in a store from addresses to nodes, since the
  lock, a node's owner and its predecessor all reach the same node.
\<close>

type_synonym addr = nat

record QNode =
  qnode_next :: "addr option"
  qnode_waiting :: uint32

record MCS =
  mcs_tail :: "addr option"
  nodes :: "addr \<Rightarrow> QNode"

text \<open>\<^verbatim>\<open>func NewLock() *Lock { return new(Lock) }\<close>, in a given store of nodes.\<close>

definition mcs_NewLock :: "(addr \<Rightarrow> QNode) \<Rightarrow> MCS" where
  "mcs_NewLock ns = \<lparr>mcs_tail = None, nodes = ns\<rparr>"

definition store_next :: "addr \<Rightarrow> addr option \<Rightarrow> MCS \<Rightarrow> MCS" where
  "store_next n p m = m\<lparr>nodes := (nodes m)(n := (nodes m n)\<lparr>qnode_next := p\<rparr>)\<rparr>"

definition store_waiting :: "addr \<Rightarrow> uint32 \<Rightarrow> MCS \<Rightarrow> MCS" where
  "store_waiting n w m = m\<lparr>nodes := (nodes m)(n := (nodes m n)\<lparr>qnode_waiting := w\<rparr>)\<rparr>"

definition mcs_TryLock :: "addr option \<Rightarrow> MCS \<Rightarrow> panic + (bool \<times> MCS)" where
  "mcs_TryLock node m =
     (case node of
        None \<Rightarrow> Inl NilDereference
      | Some n \<Rightarrow>
          let m1 = store_next n None m
          in if mcs_tail m1 = None then Inr (True, m1\<lparr>mcs_tail := Some n\<rparr>)
             else Inr (False, m1))"

partial_function (option) mcs_Lock_spin :: "(MCS \<Rightarrow> MCS) \<Rightarrow> addr \<Rightarrow> MCS \<Rightarrow> MCS option" where
  "mcs_Lock_spin gosched n m =
     (if qnode_waiting (nodes m n) \<noteq> 0 then mcs_Lock_spin gosched n (gosched m)
      else Some m)"

definition mcs_Lock :: "(MCS \<Rightarrow> MCS) \<Rightarrow> addr option \<Rightarrow> MCS \<Rightarrow> (panic + MCS) option" where
  "mcs_Lock gosched node m =
     (case node of
        None \<Rightarrow> Some (Inl NilDereference)
      | Some n \<Rightarrow>
          let m1 = store_next n None m;
              pred = mcs_tail m1;
              m2 = m1\<lparr>mcs_tail := Some n\<rparr>
          in case pred of
               None \<Rightarrow> Some (Inr m2)
             | Some p \<Rightarrow>
                 map_option Inr
                   (mcs_Lock_spin gosched n (store_next p (Some n) (store_waiting n 1 m2))))"

text \<open>The loop of \<open>Unlock\<close> that waits for a successor to publish its link.\<close>

partial_function (option) mcs_Unlock_wait :: "(MCS \<Rightarrow> MCS) \<Rightarrow> addr \<Rightarrow> MCS \<Rightarrow> MCS option" where
  "mcs_Unlock_wait gosched n m =
     (case qnode_next (nodes m n) of
        Some succ \<Rightarrow> Some (store_waiting succ 0 m)
      | None \<Rightarrow> mcs_Unlock_wait gosched n (gosched m))"

definition mcs_Unlock :: "(MCS \<Rightarrow> MCS) \<Rightarrow> addr option \<Rightarrow> MCS \<Rightarrow> (panic + MCS) option" where
  "mcs_Unlock gosched node m =
     (case node of
        None \<Rightarrow> Some (Inl NilDereference)
      | Some n \<Rightarrow>
          (case qnode_next (nodes m n) of
             None \<Rightarrow>
               if mcs_tail m = Some n then Some (Inr (m\<lparr>mcs_tail := None\<rparr>))
               else map_option Inr (mcs_Unlock_wait gosched n m)
           | Some succ \<Rightarrow> Some (Inr (store_waiting succ 0 m))))"

definition IsFree :: "MCS \<Rightarrow> bool" where
  "IsFree m = (mcs_tail m = None)"

section \<open>Facts about the packed word and the absolute difference\<close>

lemma pack64_hi: "ucast (drop_bit 32 (pack64 hi lo)) = hi"
  unfolding pack64_def
  by (rule bit_word_eqI) (auto simp: bit_simps dest: bit_imp_le_length)

lemma pack64_lo: "ucast (pack64 hi lo) = lo"
  unfolding pack64_def
  by (rule bit_word_eqI) (auto simp: bit_simps)

lemma pack64_eq_iff: "pack64 a b = pack64 c d \<longleftrightarrow> a = c \<and> b = d"
  by (metis pack64_hi pack64_lo)

lemma subAbs_unat: "unat (subAbs a b) = max (unat a) (unat b) - min (unat a) (unat b)"
  unfolding subAbs_def
  by (auto simp: unat_sub word_less_nat_alt word_le_nat_alt max_def min_def not_less)

text \<open>
  The compare-and-swap of \<open>TryLock\<close> for each byte order. With \<open>head\<close> in the high half
  it succeeds exactly on a free lock whose \<open>tail\<close> is the value read, and then advances
  \<open>tail\<close> only. With \<open>head\<close> in the low half it compares \<open>tail\<close> with \<open>me + 1\<close> and
  \<open>head\<close> with \<open>me\<close>, so without interference it never succeeds.
\<close>

lemma TryLock_cas_BigEndian:
  "TryLock_cas BigEndian me t =
     (if head t = tail t + 1 \<and> tail t = me then (True, t\<lparr>tail := tail t + 1\<rparr>) else (False, t))"
  by (auto simp: TryLock_cas_def load_uint64_def store_uint64_def pack64_eq_iff pack64_hi pack64_lo)

lemma TryLock_cas_LittleEndian:
  "TryLock_cas LittleEndian me t =
     (if tail t = me + 1 \<and> head t = me then (True, \<lparr>head = me + 1, tail = me + 1\<rparr>) else (False, t))"
  by (auto simp: TryLock_cas_def load_uint64_def store_uint64_def pack64_eq_iff pack64_hi pack64_lo)

lemma ticket_TryLock_LittleEndian_never: "ticket_TryLock LittleEndian t = (False, t)"
  by (simp add: ticket_TryLock_def TryLock_cas_LittleEndian)

lemma isFree_iff: "isFree t \<longleftrightarrow> head t = tail t + 1"
  by (simp add: isFree_def diff_eq_eq add.commute)

lemma ticket_TryLock_BigEndian:
  "ticket_TryLock BigEndian t =
     (if isFree t then (True, t\<lparr>tail := tail t + 1\<rparr>) else (False, t))"
  by (simp add: ticket_TryLock_def TryLock_cas_BigEndian isFree_iff)

section \<open>Facts about the wait loop of the ticket lock\<close>

lemma subAbs_eq_0: "subAbs a b = 0 \<longleftrightarrow> a = b"
  by (auto simp: subAbs_def)

lemma word_not_gt_1: "\<not> 1 < (d :: uint32) \<Longrightarrow> d \<noteq> 0 \<Longrightarrow> d = 1"
  by (simp add: word_less_nat_alt word_unat_eq_iff unat_eq_0 [symmetric])

lemma word_gt_20_gt_1: "20 < (d :: uint32) \<Longrightarrow> 1 < d"
  by (simp add: word_less_nat_alt)

lemma Lock_wait_step:
  "cur \<noteq> myTicket \<Longrightarrow>
   Lock_wait myTicket ticketBaseWait distancePrev (cur # loads) =
     map_option (\<lambda>tr. claimed_probe myTicket cur @ tr)
       (Lock_wait myTicket ticketBaseWait
          (if 1 < subAbs cur myTicket \<and> subAbs cur myTicket \<noteq> distancePrev
           then subAbs cur myTicket else distancePrev) loads)"
  by (auto simp: claimed_probe_def Let_def ticketBaseWait_def ticketWaitNext_def subAbs_eq_0
        dest: word_not_gt_1 word_gt_20_gt_1 intro!: arg_cong2 [where f = map_option])

lemma Lock_wait_base:
  "Lock_wait myTicket ticketBaseWait distancePrev loads =
     (if myTicket \<in> set loads
      then Some (concat (map (claimed_probe myTicket) (takeWhile (\<lambda>c. c \<noteq> myTicket) loads)))
      else None)"
proof (induction loads arbitrary: distancePrev)
  case Nil
  show ?case by simp
next
  case (Cons cur loads)
  show ?case
  proof (cases "cur = myTicket")
    case True
    then show ?thesis by simp
  next
    case False
    then show ?thesis
      unfolding Lock_wait_step [OF False] Cons.IH by auto
  qed
qed

section \<open>Facts about the flags of the array lock\<close>

lemma open_slots_set: "set (open_slots fl) = {j. j < length fl \<and> fl ! j \<noteq> 0}"
  by (auto simp: open_slots_def)

lemma open_slots_distinct: "distinct (open_slots fl)"
  by (simp add: open_slots_def)

lemma distinct_single: "distinct xs \<Longrightarrow> set xs = {i} \<Longrightarrow> xs = [i]"
proof (cases xs)
  case Nil
  assume "set xs = {i}"
  with Nil show ?thesis by simp
next
  case (Cons a ys)
  assume d: "distinct xs" and s: "set xs = {i}"
  from Cons s have a: "a = i" by auto
  from Cons d s a have "set ys \<subseteq> {i}" "i \<notin> set ys" by auto
  then have "ys = []" by (cases ys) auto
  with Cons a show ?thesis by simp
qed

lemma open_slots_single_iff:
  "open_slots fl = [i] \<longleftrightarrow>
     (i < length fl \<and> fl ! i \<noteq> 0 \<and> (\<forall>j < length fl. j \<noteq> i \<longrightarrow> fl ! j = 0))"
proof
  assume "open_slots fl = [i]"
  then have "set (open_slots fl) = {i}" by simp
  then show "i < length fl \<and> fl ! i \<noteq> 0 \<and> (\<forall>j < length fl. j \<noteq> i \<longrightarrow> fl ! j = 0)"
    unfolding open_slots_set by blast
next
  assume a: "i < length fl \<and> fl ! i \<noteq> 0 \<and> (\<forall>j < length fl. j \<noteq> i \<longrightarrow> fl ! j = 0)"
  then have "set (open_slots fl) = {i}"
    unfolding open_slots_set by blast
  then show "open_slots fl = [i]"
    by (rule distinct_single [OF open_slots_distinct])
qed

lemma replicate_4: "replicate 4 x = [x, x, x, x]"
  by (simp add: numeral_eq_Suc)

lemma open_slots_1000: "open_slots [1, 0, 0, 0] = [0]"
  by code_simp

lemma open_slots_1001: "open_slots [1, 0, 0, 1] = [0, 3]"
  by code_simp

lemma unat_next_slot:
  fixes slot sz :: uint32
  assumes "unat slot < unat sz"
  shows "unat ((slot + 1) mod sz) = (unat slot + 1) mod unat sz"
proof -
  have "unat sz < 2 ^ 32" using unsigned_less [of sz, where 'a = nat] by simp
  with assms have "unat slot + 1 < 2 ^ 32" by simp
  then have "unat (slot + 1) = unat slot + 1"
    by (simp add: unat_word_ariths)
  then show ?thesis by (simp add: unat_mod)
qed

lemma alock_Unlock_result:
  assumes len: "length (share_flags (share al)) = unat (share_size (share al))"
      and i: "unat (myIndex al) < length (share_flags (share al))"
  shows "alock_Unlock al =
           Inr (al\<lparr>share := (share al)\<lparr>share_flags :=
                  (share_flags (share al))
                    [unat (myIndex al) := 0,
                     (unat (myIndex al) + 1) mod unat (share_size (share al)) := 1]\<rparr>\<rparr>)"
proof -
  from len i have lt: "unat (myIndex al) < unat (share_size (share al))" by simp
  then have nz: "share_size (share al) \<noteq> 0" by (auto simp: unat_eq_0)
  have nx: "unat ((myIndex al + 1) mod share_size (share al))
              = (unat (myIndex al) + 1) mod unat (share_size (share al))"
    by (rule unat_next_slot [OF lt])
  have "(unat (myIndex al) + 1) mod unat (share_size (share al)) < unat (share_size (share al))"
    using lt by simp
  with len i nz nx show ?thesis
    by (simp add: alock_Unlock_def Let_def)
qed

lemma open_slots_handoff:
  assumes "open_slots fl = [i]" and "k < length fl"
  shows "open_slots (fl[i := 0, k := 1]) = [k]"
  using assms unfolding open_slots_single_iff
  by (auto simp: nth_list_update)

lemma open_slots_fresh: "0 < n \<Longrightarrow> open_slots ((replicate n 0)[0 := 1]) = [0]"
  unfolding open_slots_single_iff by (auto simp: nth_list_update)

text \<open>
  With no other goroutine to open it, a wait on a closed flag never ends; a wait on an
  open flag returns at once.
\<close>

lemma alock_spin_stuck_aux:
  assumes "alock_spin gosched slot al = Some r"
  shows "gosched = (\<lambda>a. a) \<longrightarrow>
     \<not> (unat slot < length (share_flags (share al)) \<and> share_flags (share al) ! unat slot = 0)"
  by (rule alock_spin.raw_induct [OF _ assms]) (auto split: if_splits)

lemma alock_spin_stuck:
  "unat slot < length (share_flags (share al)) \<Longrightarrow> share_flags (share al) ! unat slot = 0 \<Longrightarrow>
     alock_spin (\<lambda>a. a) slot al = None"
  by (cases "alock_spin (\<lambda>a. a) slot al") (auto dest: alock_spin_stuck_aux)

lemma alock_spin_open:
  "unat slot < length (share_flags (share al)) \<Longrightarrow> share_flags (share al) ! unat slot \<noteq> 0 \<Longrightarrow>
     alock_spin gosched slot al = Some (Inr al)"
  by (subst alock_spin.simps) simp

text \<open>
  \<open>Lock\<close> on a fresh array lock of any capacity above 1 gets slot 1, the value of
  \<open>tail\<close> after the increment, and waits on a closed flag.
\<close>

lemma alock_fresh_Lock_never_returns:
  assumes "1 < unat n" and "NewArrayLock n = Inr al"
  shows "alock_Lock_enter al = Inr (1, al\<lparr>share := (share al)\<lparr>share_tail := 1\<rparr>, myIndex := 1\<rparr>)"
    and "alock_Lock (\<lambda>a. a) al = None"
proof -
  from assms have al: "al = \<lparr>share = \<lparr>share_flags = (replicate (unat n) 0)[0 := 1], share_tail = 0,
                           share_size = n\<rparr>, myIndex = 0\<rparr>"
    by (auto simp: NewArrayLock_def split: if_splits)
  from assms(1) have n0: "n \<noteq> 0" by (auto simp: unat_eq_0)
  from assms(1) have "unat (1 :: uint32) < unat n" by simp
  then have "(1 :: uint32) < n" by (simp only: word_less_nat_alt)
  then have m: "1 mod n = 1" by (simp add: word_mod_less_divisor)
  show e: "alock_Lock_enter al = Inr (1, al\<lparr>share := (share al)\<lparr>share_tail := 1\<rparr>, myIndex := 1\<rparr>)"
    using n0 m by (simp add: al alock_Lock_enter_def)
  show "alock_Lock (\<lambda>a. a) al = None"
    unfolding alock_Lock_def e using assms(1)
    by (simp add: al alock_spin_stuck)
qed

section \<open>Runs of the model\<close>

text \<open>
  The ticket lock is taken and released; \<open>TryLock\<close> of the array lock takes slot 0 of a
  fresh lock; a second node queues behind the holder of the MCS lock and is let through
  when the holder clears its \<open>waiting\<close> flag.
\<close>

lemma ticket_run:
  "ticket_Lock ticket_NewLock [1] = Some ([], \<lparr>head = 1, tail = 1\<rparr>)
   \<and> \<not> isFree \<lparr>head = 1, tail = 1\<rparr>
   \<and> ticket_Unlock \<lparr>head = 1, tail = 1\<rparr> = \<lparr>head = 2, tail = 1\<rparr>
   \<and> isFree \<lparr>head = 2, tail = 1\<rparr>"
  by (simp add: ticket_Lock_def ticket_NewLock_def ticket_Unlock_def isFree_def)

lemma alock_run:
  "alock_TryLock \<lparr>share = \<lparr>share_flags = [1, 0, 0], share_tail = 0, share_size = 3\<rparr>, myIndex = 0\<rparr>
     = Inr (True,
         \<lparr>share = \<lparr>share_flags = [1, 0, 0], share_tail = 1, share_size = 3\<rparr>, myIndex = 0\<rparr>)"
  by (simp add: alock_TryLock_def alock_TryLock_from_def)

lemma mcs_run:
  "mcs_Lock (store_waiting 2 0) (Some 2)
     \<lparr>mcs_tail = Some 1, nodes = (\<lambda>a. \<lparr>qnode_next = None, qnode_waiting = 0\<rparr>)\<rparr>
   = Some (Inr
       \<lparr>mcs_tail = Some 2,
        nodes = (\<lambda>a. \<lparr>qnode_next = None, qnode_waiting = 0\<rparr>)
          (1 := \<lparr>qnode_next = Some 2, qnode_waiting = 0\<rparr>)\<rparr>)"
  by (simp add: mcs_Lock_def store_next_def store_waiting_def mcs_Lock_spin.simps fun_eq_iff)

section \<open>The absolute difference of two tickets\<close>

text \<open>
  Claim C10. For all 32-bit unsigned \<open>a\<close> and \<open>b\<close>, \<open>subAbs a b\<close> is the exact absolute
  difference of the two numbers, the larger minus the smaller, with no wrap-around;
  so \<open>subAbs\<close> is commutative and \<open>subAbs a a\<close> is 0.
\<close>

theorem subAbs_exact:
  "unat (subAbs a b) = max (unat a) (unat b) - min (unat a) (unat b)
   \<and> subAbs a b = subAbs b a \<and> subAbs a a = 0"
proof -
  have comm: "subAbs a b = subAbs b a"
    by (simp add: word_unat_eq_iff subAbs_unat max.commute min.commute)
  have "subAbs a a = 0" by (simp add: subAbs_def)
  with comm show ?thesis by (simp add: subAbs_unat)
qed

section \<open>Fresh locks\<close>

text \<open>
  Claim C8. A lock that has just been made reports itself free: the ticket lock's
  \<open>NewLock\<close> gives head 1 and tail 0, for which \<open>isFree\<close> holds, and the MCS lock's
  \<open>NewLock\<close> gives the tail pointer nil, for which \<open>IsFree\<close> holds.
\<close>

theorem fresh_lock_is_free:
  "ticket_NewLock = \<lparr>head = 1, tail = 0\<rparr> \<and> isFree ticket_NewLock
   \<and> mcs_tail (mcs_NewLock ns) = None \<and> IsFree (mcs_NewLock ns)"
  by (simp add: ticket_NewLock_def isFree_def mcs_NewLock_def IsFree_def)

section \<open>TryLock of the MCS lock\<close>

text \<open>
  Claim C4. \<open>TryLock(node)\<close> of the MCS lock is one compare-and-swap of the tail pointer
  from nil to \<open>node\<close>: it returns true exactly when the tail was nil, the tail then
  points to \<open>node\<close>, and otherwise the tail is what it was. The function has no loop: it
  is a plain definition, and it returns for every lock and every node that is not nil.
\<close>

theorem mcs_TryLock_single_cas:
  "mcs_TryLock (Some n) m =
     Inr (mcs_tail m = None,
          (store_next n None m)\<lparr>mcs_tail := (if mcs_tail m = None then Some n else mcs_tail m)\<rparr>)"
  by (auto simp: mcs_TryLock_def store_next_def Let_def)

text \<open>
  Claim C9. \<open>TryLock(node)\<close> of the MCS lock stores nil into \<open>node.next\<close> before the
  compare-and-swap, whatever the outcome: after the call \<open>node.next\<close> is nil also when
  the call returns false (the tail was not nil), and \<open>node.waiting\<close> is what it was.
\<close>

theorem mcs_TryLock_clears_next:
  "(case mcs_TryLock (Some n) m of
      Inl e \<Rightarrow> False
    | Inr (b, m') \<Rightarrow>
        qnode_next (nodes m' n) = None
        \<and> qnode_waiting (nodes m' n) = qnode_waiting (nodes m n)
        \<and> b = (mcs_tail m = None))"
  by (simp add: mcs_TryLock_def store_next_def Let_def)

section \<open>A failed TryLock writes nothing\<close>

text \<open>
  Claim C3. For each of the three locks, a \<open>TryLock\<close> that returns false leaves the
  shared state of the lock as it was: the two counters of the ticket lock (for either
  byte order and whatever value of \<open>tail\<close> was read before the CAS), the flags and the
  tail counter of the array lock (whatever value of \<open>tail\<close> was loaded), and the tail
  pointer of the MCS lock.
\<close>

theorem TryLock_false_unchanged:
  "(fst (TryLock_cas bo me t) = False \<longrightarrow> snd (TryLock_cas bo me t) = t)
   \<and> (alock_TryLock_from tail0 al = Inr (False, al') \<longrightarrow> al' = al)
   \<and> (mcs_TryLock node m = Inr (False, m') \<longrightarrow> mcs_tail m' = mcs_tail m)"
  by (auto simp: TryLock_cas_def alock_TryLock_from_def mcs_TryLock_def store_next_def Let_def
           split: if_splits option.splits)

theorem TryLock_false_unchanged_witness:
  "fst (TryLock_cas BigEndian 1 \<lparr>head = 1, tail = 1\<rparr>) = False
   \<and> snd (TryLock_cas BigEndian 1 \<lparr>head = 1, tail = 1\<rparr>) = \<lparr>head = 1, tail = 1\<rparr>
   \<and> alock_TryLock_from 1
        \<lparr>share = \<lparr>share_flags = [1, 0], share_tail = 1, share_size = 2\<rparr>, myIndex = 0\<rparr>
      = Inr (False,
          \<lparr>share = \<lparr>share_flags = [1, 0], share_tail = 1, share_size = 2\<rparr>, myIndex = 0\<rparr>)
   \<and> mcs_TryLock (Some 1)
        \<lparr>mcs_tail = Some 0, nodes = (\<lambda>a. \<lparr>qnode_next = None, qnode_waiting = 0\<rparr>)\<rparr>
      = Inr (False,
          store_next 1 None
            \<lparr>mcs_tail = Some 0, nodes = (\<lambda>a. \<lparr>qnode_next = None, qnode_waiting = 0\<rparr>)\<rparr>)
   \<and> mcs_tail (store_next 1 None
        \<lparr>mcs_tail = Some 0, nodes = (\<lambda>a. \<lparr>qnode_next = None, qnode_waiting = 0\<rparr>)\<rparr>)
      = Some 0"
  using TryLock_false_unchanged
    [of BigEndian 1 "\<lparr>head = 1, tail = 1\<rparr>" 1
        "\<lparr>share = \<lparr>share_flags = [1, 0], share_tail = 1, share_size = 2\<rparr>, myIndex = 0\<rparr>"
        "\<lparr>share = \<lparr>share_flags = [1, 0], share_tail = 1, share_size = 2\<rparr>, myIndex = 0\<rparr>"
        "Some 1"
        "\<lparr>mcs_tail = Some 0, nodes = (\<lambda>a. \<lparr>qnode_next = None, qnode_waiting = 0\<rparr>)\<rparr>"
        "store_next 1 None
           \<lparr>mcs_tail = Some 0, nodes = (\<lambda>a. \<lparr>qnode_next = None, qnode_waiting = 0\<rparr>)\<rparr>"]
  by (simp add: TryLock_cas_def load_uint64_def pack64_def alock_TryLock_from_def
        mcs_TryLock_def store_next_def)

section \<open>Unlock of the MCS lock\<close>

text \<open>
  Claim C5. \<open>Unlock(node)\<close> of the MCS lock goes by the cases of \<open>node.next\<close>. When
  \<open>node.next\<close> is a successor, \<open>Unlock\<close> returns, the successor's \<open>waiting\<close> flag is 0
  afterwards and the tail pointer of the lock is what it was. When \<open>node.next\<close> is nil and
  the tail still is \<open>node\<close>, the compare-and-swap of the tail from \<open>node\<close> to nil
  succeeds, \<open>Unlock\<close> returns and the lock is free afterwards. Neither case enters the
  wait loop, whatever the other goroutines do.
\<close>

theorem mcs_Unlock_cases:
  "(qnode_next (nodes m n) = Some succ \<longrightarrow>
      mcs_Unlock gosched (Some n) m = Some (Inr (store_waiting succ 0 m))
      \<and> qnode_waiting (nodes (store_waiting succ 0 m) succ) = 0
      \<and> mcs_tail (store_waiting succ 0 m) = mcs_tail m)
   \<and> (qnode_next (nodes m n) = None \<and> mcs_tail m = Some n \<longrightarrow>
      mcs_Unlock gosched (Some n) m = Some (Inr (m\<lparr>mcs_tail := None\<rparr>))
      \<and> IsFree (m\<lparr>mcs_tail := None\<rparr>))"
  by (simp add: mcs_Unlock_def store_waiting_def IsFree_def)

theorem mcs_Unlock_cases_witness:
  "mcs_Unlock (\<lambda>s. s) (Some 1)
     \<lparr>mcs_tail = Some 2,
      nodes = (\<lambda>a. \<lparr>qnode_next = None, qnode_waiting = 0\<rparr>)
        (1 := \<lparr>qnode_next = Some 2, qnode_waiting = 0\<rparr>,
         2 := \<lparr>qnode_next = None, qnode_waiting = 1\<rparr>)\<rparr>
   = Some (Inr
     \<lparr>mcs_tail = Some 2,
      nodes = (\<lambda>a. \<lparr>qnode_next = None, qnode_waiting = 0\<rparr>)
        (1 := \<lparr>qnode_next = Some 2, qnode_waiting = 0\<rparr>,
         2 := \<lparr>qnode_next = None, qnode_waiting = 0\<rparr>)\<rparr>)
   \<and> mcs_Unlock (\<lambda>s. s) (Some 1)
     \<lparr>mcs_tail = Some 1, nodes = (\<lambda>a. \<lparr>qnode_next = None, qnode_waiting = 0\<rparr>)\<rparr>
   = Some (Inr \<lparr>mcs_tail = None, nodes = (\<lambda>a. \<lparr>qnode_next = None, qnode_waiting = 0\<rparr>)\<rparr>)
   \<and> IsFree \<lparr>mcs_tail = None, nodes = (\<lambda>a. \<lparr>qnode_next = None, qnode_waiting = 0\<rparr>)\<rparr>"
  using mcs_Unlock_cases
    [of "\<lparr>mcs_tail = Some 2,
      nodes = (\<lambda>a. \<lparr>qnode_next = None, qnode_waiting = 0\<rparr>)
        (1 := \<lparr>qnode_next = Some 2, qnode_waiting = 0\<rparr>,
         2 := \<lparr>qnode_next = None, qnode_waiting = 1\<rparr>)\<rparr>" 1 2 "\<lambda>s. s"]
    mcs_Unlock_cases
    [of "\<lparr>mcs_tail = Some 1, nodes = (\<lambda>a. \<lparr>qnode_next = None, qnode_waiting = 0\<rparr>)\<rparr>"
        1 2 "\<lambda>s. s"]
  by (simp add: store_waiting_def IsFree_def)

section \<open>The array lock\<close>

text \<open>
  What holds of the flags as far as \<open>myIndex\<close> is the slot of the holder. For a
  capacity \<open>N\<close> other than 0 the constructor gives a lock whose only open flag is flag
  0. In a state whose only open flag is the one at \<open>myIndex\<close>, \<open>Unlock\<close> returns a
  state whose only open flag is the one at \<open>(myIndex + 1) mod N\<close>, where it holds 1,
  with the tail counter, the capacity and every other flag as before. The entry of
  \<open>Lock\<close> and \<open>TryLock\<close> do not write the flags.
\<close>

lemma alock_handoff_when_index_kept:
  "(numGoroutines \<noteq> 0 \<longrightarrow>
      (case NewArrayLock numGoroutines of
         Inl e \<Rightarrow> False
       | Inr al0 \<Rightarrow>
           open_slots (share_flags (share al0)) = [0]
           \<and> length (share_flags (share al0)) = unat numGoroutines
           \<and> share_size (share al0) = numGoroutines))
   \<and> (length (share_flags (share al)) = unat (share_size (share al))
        \<and> open_slots (share_flags (share al)) = [unat (myIndex al)] \<longrightarrow>
      (case alock_Unlock al of
         Inl e \<Rightarrow> False
       | Inr al' \<Rightarrow>
           open_slots (share_flags (share al'))
             = [(unat (myIndex al) + 1) mod unat (share_size (share al))]
           \<and> share_flags (share al') ! ((unat (myIndex al) + 1) mod unat (share_size (share al))) = 1
           \<and> share_tail (share al') = share_tail (share al)
           \<and> share_size (share al') = share_size (share al)
           \<and> length (share_flags (share al')) = length (share_flags (share al))
           \<and> (\<forall>j. j \<noteq> unat (myIndex al)
                    \<and> j \<noteq> (unat (myIndex al) + 1) mod unat (share_size (share al)) \<longrightarrow>
                  share_flags (share al') ! j = share_flags (share al) ! j)))
   \<and> (alock_Lock_enter al = Inr (slot, al1) \<longrightarrow> share_flags (share al1) = share_flags (share al))
   \<and> (alock_TryLock_from tail0 al = Inr (b, al2) \<longrightarrow>
        share_flags (share al2) = share_flags (share al))"
proof (intro conjI impI)
  assume "numGoroutines \<noteq> 0"
  then have "0 < unat numGoroutines" by (simp add: unat_gt_0)
  then show "case NewArrayLock numGoroutines of
         Inl e \<Rightarrow> False
       | Inr al0 \<Rightarrow>
           open_slots (share_flags (share al0)) = [0]
           \<and> length (share_flags (share al0)) = unat numGoroutines
           \<and> share_size (share al0) = numGoroutines"
    by (simp add: NewArrayLock_def open_slots_fresh)
next
  assume a: "length (share_flags (share al)) = unat (share_size (share al))
        \<and> open_slots (share_flags (share al)) = [unat (myIndex al)]"
  then have i: "unat (myIndex al) < length (share_flags (share al))"
    by (simp add: open_slots_single_iff)
  with a have k: "(unat (myIndex al) + 1) mod unat (share_size (share al))
                    < length (share_flags (share al))"
    by simp
  from a i k show "case alock_Unlock al of
         Inl e \<Rightarrow> False
       | Inr al' \<Rightarrow>
           open_slots (share_flags (share al'))
             = [(unat (myIndex al) + 1) mod unat (share_size (share al))]
           \<and> share_flags (share al') ! ((unat (myIndex al) + 1) mod unat (share_size (share al))) = 1
           \<and> share_tail (share al') = share_tail (share al)
           \<and> share_size (share al') = share_size (share al)
           \<and> length (share_flags (share al')) = length (share_flags (share al))
           \<and> (\<forall>j. j \<noteq> unat (myIndex al)
                    \<and> j \<noteq> (unat (myIndex al) + 1) mod unat (share_size (share al)) \<longrightarrow>
                  share_flags (share al') ! j = share_flags (share al) ! j)"
    by (simp add: alock_Unlock_result open_slots_handoff)
next
  assume "alock_Lock_enter al = Inr (slot, al1)"
  then show "share_flags (share al1) = share_flags (share al)"
    by (auto simp: alock_Lock_enter_def Let_def split: if_splits)
next
  assume "alock_TryLock_from tail0 al = Inr (b, al2)"
  then show "share_flags (share al2) = share_flags (share al)"
    by (auto simp: alock_TryLock_from_def Let_def split: if_splits)
qed

text \<open>
  Claim C7 says that the constructor opens flag 0 only, that \<open>Unlock\<close> by the holder,
  in a state where exactly the flag of the holder's slot \<open>i\<close> is open, leaves exactly
  the flag at \<open>(i + 1) mod N\<close> open, and that so every operation keeps exactly one flag
  open. The first part holds. But \<open>Unlock\<close> takes the slot from \<open>al.myIndex\<close>, a field
  of the one handle that all goroutines use, and the entry of \<open>Lock\<close> overwrites it. On
  the lock of capacity 4: a goroutine takes the lock with \<open>TryLock\<close> (slot 0); a second
  one enters \<open>Lock\<close>, which sets \<open>myIndex\<close> to 2, and waits; exactly the flag of the
  holder's slot 0 is open. The holder's \<open>Unlock\<close> then clears flag 2 and opens flag 3:
  flag 0 stays open, and two flags are open.
\<close>

theorem alock_Unlock_after_Lock_entry:
  "NewArrayLock 4
     = Inr \<lparr>share = \<lparr>share_flags = [1, 0, 0, 0], share_tail = 0, share_size = 4\<rparr>, myIndex = 0\<rparr>
   \<and> alock_TryLock
       \<lparr>share = \<lparr>share_flags = [1, 0, 0, 0], share_tail = 0, share_size = 4\<rparr>, myIndex = 0\<rparr>
     = Inr (True,
         \<lparr>share = \<lparr>share_flags = [1, 0, 0, 0], share_tail = 1, share_size = 4\<rparr>, myIndex = 0\<rparr>)
   \<and> alock_Lock_enter
       \<lparr>share = \<lparr>share_flags = [1, 0, 0, 0], share_tail = 1, share_size = 4\<rparr>, myIndex = 0\<rparr>
     = Inr (2,
         \<lparr>share = \<lparr>share_flags = [1, 0, 0, 0], share_tail = 2, share_size = 4\<rparr>, myIndex = 2\<rparr>)
   \<and> open_slots [1, 0, 0, 0] = [0]
   \<and> alock_Unlock
       \<lparr>share = \<lparr>share_flags = [1, 0, 0, 0], share_tail = 2, share_size = 4\<rparr>, myIndex = 2\<rparr>
     = Inr \<lparr>share = \<lparr>share_flags = [1, 0, 0, 1], share_tail = 2, share_size = 4\<rparr>, myIndex = 2\<rparr>
   \<and> open_slots [1, 0, 0, 1] = [0, 3]"
  by (simp add: NewArrayLock_def replicate_4 alock_TryLock_def alock_TryLock_from_def
        alock_Lock_enter_def alock_Unlock_def open_slots_1000 open_slots_1001)

text \<open>
  Claim C2 says that \<open>Lock\<close> takes its slot from the value of \<open>tail\<close> before the
  increment, so that the first \<open>Lock\<close> on a fresh lock gets slot 0, the open one, and
  acquires. The code takes the value after the increment (\<open>atomic.AddUint32\<close> returns
  the new value): on the fresh lock of capacity 4 of the package's own usage example the
  first \<open>Lock\<close> gets slot 1, whose flag is 0, and with no other goroutine to open that
  flag the call never returns.
\<close>

theorem alock_first_Lock_spins:
  "NewArrayLock 4
     = Inr \<lparr>share = \<lparr>share_flags = [1, 0, 0, 0], share_tail = 0, share_size = 4\<rparr>, myIndex = 0\<rparr>
   \<and> alock_Lock_enter
       \<lparr>share = \<lparr>share_flags = [1, 0, 0, 0], share_tail = 0, share_size = 4\<rparr>, myIndex = 0\<rparr>
     = Inr (1, \<lparr>share = \<lparr>share_flags = [1, 0, 0, 0], share_tail = 1, share_size = 4\<rparr>,
                myIndex = 1\<rparr>)
   \<and> [1, 0, 0, 0 :: uint32] ! 1 = 0
   \<and> alock_Lock (\<lambda>a. a)
       \<lparr>share = \<lparr>share_flags = [1, 0, 0, 0], share_tail = 0, share_size = 4\<rparr>, myIndex = 0\<rparr>
     = None"
  by (simp add: NewArrayLock_def replicate_4 alock_Lock_enter_def alock_Lock_def alock_spin_stuck)

section \<open>The ticket lock\<close>

text \<open>
  Claim C1 says that \<open>TryLock\<close> of the ticket lock compares and swaps the 64-bit word
  with \<open>head\<close> in its high half and \<open>tail\<close> in its low half, and succeeds only on a
  free lock (\<open>head = tail + 1\<close>), advancing \<open>tail\<close> and leaving \<open>head\<close>. The code
  builds the expected and the new word in that way, but the word it compares with is the
  struct itself, where \<open>head\<close> comes first: on a little-endian target \<open>head\<close> is the
  low half. There \<open>TryLock\<close> on the fresh, free lock returns false; and when another
  \<open>Lock\<close> has advanced \<open>tail\<close> between the read of \<open>tail\<close> (\<open>me = 1\<close> on the held lock
  with head 1 and tail 1) and the compare-and-swap, the call returns true on a lock that
  is not free, and advances \<open>head\<close> instead of \<open>tail\<close>.
\<close>

theorem ticket_TryLock_little_endian:
  "isFree ticket_NewLock
   \<and> ticket_TryLock LittleEndian ticket_NewLock = (False, ticket_NewLock)
   \<and> \<not> isFree \<lparr>head = 1, tail = 2\<rparr>
   \<and> TryLock_cas LittleEndian 1 \<lparr>head = 1, tail = 2\<rparr> = (True, \<lparr>head = 2, tail = 2\<rparr>)"
  by (simp add: ticket_TryLock_def TryLock_cas_def load_uint64_def store_uint64_def pack64_def
        ticket_NewLock_def isFree_def)

text \<open>
  Claim C6. \<open>Lock\<close> of the ticket lock increments \<open>tail\<close> and takes the new value as
  its ticket. When the first load of \<open>head\<close> is the ticket, it returns at once with no
  spin. Otherwise it returns if and only if a later load of \<open>head\<close> is the ticket, and
  each probe before that one costs what the specification says: with
  \<open>distance = |head - ticket|\<close>, a busy-spin of \<open>distance * 10\<close> iterations (the
  \<open>uint32\<close> product of the code) when \<open>distance > 1\<close>, a busy-spin of 5 iterations when
  \<open>distance\<close> is 1, and a sleep of a millisecond besides when \<open>distance > 20\<close>. The
  second part is the reset: whatever \<open>wait\<close> is, a probe whose distance is above 1 and
  differs from the recorded one spins with \<open>wait\<close> back at the base constant and goes on
  with the base constant and the new distance recorded.
\<close>

theorem ticket_Lock_spins_as_claimed:
  "ticket_Lock t (cur # loads) =
     (if cur = tail t + 1 then Some ([], t\<lparr>tail := tail t + 1\<rparr>)
      else if tail t + 1 \<in> set loads
      then Some (concat (map (claimed_probe (tail t + 1))
                   (takeWhile (\<lambda>c. c \<noteq> tail t + 1) loads)),
                 t\<lparr>tail := tail t + 1\<rparr>)
      else None)
   \<and> (cur \<noteq> myTicket \<and> 1 < subAbs cur myTicket \<and> subAbs cur myTicket \<noteq> distancePrev \<longrightarrow>
        Lock_wait myTicket wait distancePrev (cur # loads) =
          map_option (\<lambda>tr. claimed_probe myTicket cur @ tr)
            (Lock_wait myTicket ticketBaseWait (subAbs cur myTicket) loads))"
proof (intro conjI impI)
  show "ticket_Lock t (cur # loads) =
     (if cur = tail t + 1 then Some ([], t\<lparr>tail := tail t + 1\<rparr>)
      else if tail t + 1 \<in> set loads
      then Some (concat (map (claimed_probe (tail t + 1))
                   (takeWhile (\<lambda>c. c \<noteq> tail t + 1) loads)),
                 t\<lparr>tail := tail t + 1\<rparr>)
      else None)"
    by (simp add: ticket_Lock_def Let_def Lock_wait_base)
next
  assume a: "cur \<noteq> myTicket \<and> 1 < subAbs cur myTicket \<and> subAbs cur myTicket \<noteq> distancePrev"
  then show "Lock_wait myTicket wait distancePrev (cur # loads) =
          map_option (\<lambda>tr. claimed_probe myTicket cur @ tr)
            (Lock_wait myTicket ticketBaseWait (subAbs cur myTicket) loads)"
    by (auto simp: Let_def claimed_probe_def ticketBaseWait_def
          intro!: arg_cong2 [where f = map_option])
qed

theorem ticket_Lock_spins_as_claimed_witness:
  "ticket_Lock \<lparr>head = 2, tail = 29\<rparr> [2, 5, 28, 29, 30] =
     Some ([BusySpin 250, SleepMillisecond, BusySpin 20, BusySpin 5], \<lparr>head = 2, tail = 30\<rparr>)
   \<and> (2 :: uint32) \<noteq> 30 \<and> 1 < subAbs 2 30 \<and> subAbs 2 30 \<noteq> 1
   \<and> Lock_wait 30 77 1 [2, 5, 28, 29, 30] =
       Some [BusySpin 280, SleepMillisecond, BusySpin 250, SleepMillisecond,
             BusySpin 20, BusySpin 5]"
  using ticket_Lock_spins_as_claimed
    [of "\<lparr>head = 2, tail = 29\<rparr>" 2 "[5, 28, 29, 30]" 30 1 77]
  by (simp add: claimed_probe_def subAbs_def Lock_wait_base ticketBaseWait_def ticketWaitNext_def)

end
